theory Spec2Isabelle
  imports Complex_Main "HOL-Library.Word"
begin

section \<open>Configuration constants of newmotion.py\<close>

definition NOTIFICATION_DELAY :: real where
  "NOTIFICATION_DELAY = 60"

definition MOTION_THRESHOLD :: nat where
  "MOTION_THRESHOLD = 25"

definition MIN_CONTOUR_AREA :: real where
  "MIN_CONTOUR_AREA = 500"

section \<open>Single-channel images and the OpenCV calls of the main loop\<close>

text \<open>
  A single-channel 8-bit image (\<^verbatim>\<open>numpy.ndarray\<close> of dtype uint8) is the list of its
  rows. The OpenCV functions the script calls are not code of the script; the ones below
  are written after the behaviour OpenCV documents for exactly the arguments the script
  passes. Colour conversion, the Gaussian blur and the drawing calls are not modelled:
  they stay parameters (see \<open>cv2\<close> below).
\<close>

type_synonym gray = "8 word list list"

datatype cv_error = SizeMismatch

definition shape :: "'a list list \<Rightarrow> nat \<times> nat" where
  "shape img = (length img, (case img of [] \<Rightarrow> 0 | r # _ \<Rightarrow> length r))"

definition px :: "'a::zero list list \<Rightarrow> int \<Rightarrow> int \<Rightarrow> 'a" where
  "px img y x =
     (if 0 \<le> y \<and> 0 \<le> x \<and> nat y < length img \<and> nat x < length (img ! nat y)
      then img ! nat y ! nat x else 0)"

text \<open>\<^verbatim>\<open>cv2.absdiff(a, b)\<close>: per-pixel \<open>|a - b|\<close>; arrays of different sizes raise
  \<^verbatim>\<open>cv2.error\<close>.\<close>

definition absdiff_px :: "8 word \<Rightarrow> 8 word \<Rightarrow> 8 word" where
  "absdiff_px a b = (if a \<le> b then b - a else a - b)"

definition absdiff :: "gray \<Rightarrow> gray \<Rightarrow> cv_error + gray" where
  "absdiff a b =
     (if map length a = map length b
      then Inr (map (\<lambda>(ra, rb). map (\<lambda>(p, q). absdiff_px p q) (zip ra rb)) (zip a b))
      else Inl SizeMismatch)"

text \<open>\<^verbatim>\<open>cv2.threshold(src, thresh, maxval, type)\<close> returns the pair of the threshold used
  and the result image; the script takes component \<^verbatim>\<open>[1]\<close>.\<close>

datatype threshold_type = THRESH_BINARY | THRESH_BINARY_INV | THRESH_TRUNC
  | THRESH_TOZERO | THRESH_TOZERO_INV

definition threshold_px :: "threshold_type \<Rightarrow> nat \<Rightarrow> 8 word \<Rightarrow> 8 word \<Rightarrow> 8 word" where
  "threshold_px ty thresh maxval p =
     (case ty of
        THRESH_BINARY \<Rightarrow> (if unat p > thresh then maxval else 0)
      | THRESH_BINARY_INV \<Rightarrow> (if unat p > thresh then 0 else maxval)
      | THRESH_TRUNC \<Rightarrow> (if unat p > thresh then of_nat thresh else p)
      | THRESH_TOZERO \<Rightarrow> (if unat p > thresh then p else 0)
      | THRESH_TOZERO_INV \<Rightarrow> (if unat p > thresh then 0 else p))"

definition threshold :: "gray \<Rightarrow> nat \<Rightarrow> 8 word \<Rightarrow> threshold_type \<Rightarrow> nat \<times> gray" where
  "threshold src thresh maxval ty = (thresh, map (map (threshold_px ty thresh maxval)) src)"

text \<open>\<^verbatim>\<open>cv2.dilate(src, None, iterations=n)\<close>: with no kernel given, the structuring element
  is the 3 x 3 rectangle anchored at its centre; each pass replaces a pixel by the maximum
  over its neighbourhood, pixels outside the image not taking part.\<close>

definition offsets3 :: "(int \<times> int) list" where
  "offsets3 = [(dy, dx). dy \<leftarrow> [-1, 0, 1], dx \<leftarrow> [-1, 0, 1]]"

definition dilate3x3 :: "gray \<Rightarrow> gray" where
  "dilate3x3 img =
     map (\<lambda>y. map (\<lambda>x. fold (\<lambda>(dy, dx) m. max m (px img (int y + dy) (int x + dx))) offsets3 0)
                [0..<length (img ! y)])
         [0..<length img]"

definition dilate :: "gray \<Rightarrow> unit option \<Rightarrow> nat \<Rightarrow> gray" where
  "dilate src element iterations = (dilate3x3 ^^ iterations) src"

text \<open>
  \<^verbatim>\<open>cv2.findContours(image, cv2.RETR_EXTERNAL, cv2.CHAIN_APPROX_SIMPLE)\<close>, the only mode
  and method the script uses: the border following of Suzuki and Abe as OpenCV runs it.
  The image is copied into a buffer with a one-pixel border of zeros and made binary
  (non-zero pixels become 1); the buffer is indexed by the point (x, y) and is 0 outside
  the copy. A raster scan starts an outer border at a pixel 1 whose left neighbour is 0,
  unless the last labelled pixel passed in the row has a positive label (the pixel then
  lies inside a component already traced); hole borders are skipped. A traced border
  pixel is labelled 2, or -126 when its right neighbour was examined and found 0.
  Directions are the chain codes 0..7, counter-clockwise from east. The border following
  is a loop until the start is reached again; it is given the fuel of eight steps per
  pixel, and \<open>None\<close> stands for a loop that does not come back.
\<close>

type_synonym point = "int \<times> int"
type_synonym contour = "point list"
type_synonym labels = "point \<Rightarrow> int"

definition copyMakeBorder :: "gray \<Rightarrow> labels" where
  "copyMakeBorder src =
     (\<lambda>(x, y). if 1 \<le> x \<and> x \<le> int (snd (shape src)) \<and> 1 \<le> y \<and> y \<le> int (fst (shape src))
                   \<and> px src (y - 1) (x - 1) \<noteq> 0
                then 1 else 0)"

definition icvCodeDeltas :: "nat \<Rightarrow> point" where
  "icvCodeDeltas s =
     [(1, 0), (1, -1), (0, -1), (-1, -1), (-1, 0), (-1, 1), (0, 1), (1, 1)] ! (s mod 8)"

definition step_pt :: "point \<Rightarrow> nat \<Rightarrow> point" where
  "step_pt p s = (fst p + fst (icvCodeDeltas s), snd p + snd (icvCodeDeltas s))"

definition unpad :: "point \<Rightarrow> point" where
  "unpad p = (fst p - 1, snd p - 1)"

definition first_cw :: "labels \<Rightarrow> point \<Rightarrow> nat" where
  "first_cw im i0 =
     (case filter (\<lambda>s. im (step_pt i0 s) \<noteq> 0) [3, 2, 1, 0, 7, 6, 5] of
        [] \<Rightarrow> 4 | s # _ \<Rightarrow> s)"

definition next_ccw :: "labels \<Rightarrow> point \<Rightarrow> nat \<Rightarrow> nat" where
  "next_ccw im i3 s =
     (case filter (\<lambda>k. im (step_pt i3 k) \<noteq> 0) [Suc s..<16] of
        [] \<Rightarrow> 15 | k # _ \<Rightarrow> k)"

fun follow :: "nat \<Rightarrow> labels \<Rightarrow> point \<Rightarrow> point \<Rightarrow> point \<Rightarrow> nat \<Rightarrow> nat \<Rightarrow> contour
    \<Rightarrow> (labels \<times> contour) option" where
  "follow 0 im i0 i1 i3 s_end prev_s acc = None"
| "follow (Suc fuel) im i0 i1 i3 s_end prev_s acc =
     (let s = next_ccw im i3 s_end mod 8;
          i4 = step_pt i3 s;
          im' = (if s \<noteq> 0 \<and> s - 1 < s_end then im(i3 := -126)
                 else if im i3 = 1 then im(i3 := 2) else im);
          acc' = (if s \<noteq> prev_s then acc @ [unpad i3] else acc)
      in if i4 = i0 \<and> i3 = i1 then Some (im', acc')
         else follow fuel im' i0 i1 i4 ((s + 4) mod 8) s acc')"

definition icvFetchContour :: "nat \<Rightarrow> labels \<Rightarrow> point \<Rightarrow> (labels \<times> contour) option" where
  "icvFetchContour fuel im i0 =
     (let s = first_cw im i0 in
      if s = 4 then Some (im(i0 := -126), [unpad i0])
      else follow fuel im i0 (step_pt i0 s) i0 s ((s + 4) mod 8) [])"

record scanner =
  img :: labels
  lnbd_x :: int
  prev :: int
  found :: "contour list"

definition labelled :: "int \<Rightarrow> bool" where
  "labelled p = (p \<noteq> 0 \<and> p \<noteq> 1)"

definition scan_pixel :: "nat \<Rightarrow> int \<Rightarrow> int \<Rightarrow> scanner \<Rightarrow> scanner option" where
  "scan_pixel fuel y x st =
     (let p = img st (x, y) in
      if p = prev st then Some st
      else if prev st = 0 \<and> p = 1 then
        (if img st (lnbd_x st, y) > 0 then Some (st\<lparr>prev := p\<rparr>)
         else (case icvFetchContour fuel (img st) (x, y) of
                 None \<Rightarrow> None
               | Some (im', c) \<Rightarrow>
                   Some (st\<lparr>img := im', lnbd_x := x, prev := im' (x, y),
                            found := c # found st\<rparr>)))
      else if p \<noteq> 0 \<or> prev st < 1 then
        Some (st\<lparr>prev := p, lnbd_x := (if labelled p then x else lnbd_x st)\<rparr>)
      else
        Some (st\<lparr>prev := p, lnbd_x := (if labelled (prev st) then x - 1 else lnbd_x st)\<rparr>))"

fun scan_row :: "nat \<Rightarrow> int \<Rightarrow> int list \<Rightarrow> scanner \<Rightarrow> scanner option" where
  "scan_row fuel y [] st = Some st"
| "scan_row fuel y (x # xs) st =
     (case scan_pixel fuel y x st of None \<Rightarrow> None | Some st' \<Rightarrow> scan_row fuel y xs st')"

fun scan_rows :: "nat \<Rightarrow> int list \<Rightarrow> int list \<Rightarrow> labels \<Rightarrow> contour list
    \<Rightarrow> contour list option" where
  "scan_rows fuel [] xs im cs = Some cs"
| "scan_rows fuel (y # ys) xs im cs =
     (case scan_row fuel y xs \<lparr>img = im, lnbd_x = 0, prev = 0, found = cs\<rparr> of
        None \<Rightarrow> None
      | Some st \<Rightarrow> scan_rows fuel ys xs (img st) (found st))"

definition findContours :: "gray \<Rightarrow> contour list option" where
  "findContours src =
     (case shape src of (h, w) \<Rightarrow>
        scan_rows (8 * h * w) (map int [1..<Suc h]) (map int [1..<Suc w])
          (copyMakeBorder src) [])"

text \<open>\<^verbatim>\<open>cv2.contourArea(contour)\<close>: the polygon area by Green's formula, half the absolute
  value of the sum of the cross products of consecutive points (the last point preceding
  the first); \<^verbatim>\<open>cv2.boundingRect(contour)\<close>: the up-right rectangle (x, y, w, h) of the
  points, a pixel wide for a single point.\<close>

definition contourArea :: "contour \<Rightarrow> real" where
  "contourArea c =
     (case c of [] \<Rightarrow> 0
      | _ \<Rightarrow> \<bar>real_of_int (sum_list (map (\<lambda>((ax, ay), (bx, by)). ax * by - bx * ay)
                                      (zip (last c # butlast c) c)))\<bar> / 2)"

type_synonym rect = "int \<times> int \<times> int \<times> int"

definition boundingRect :: "contour \<Rightarrow> rect" where
  "boundingRect c =
     (case c of [] \<Rightarrow> (0, 0, 0, 0)
      | (x0, y0) # ps \<Rightarrow>
          (let xmin = fold min (map fst ps) x0; xmax = fold max (map fst ps) x0;
               ymin = fold min (map snd ps) y0; ymax = fold max (map snd ps) y0
           in (xmin, ymin, xmax - xmin + 1, ymax - ymin + 1)))"

section \<open>The notifier\<close>

text \<open>
  The three settings read from the environment at start-up; \<^verbatim>\<open>os.getenv\<close> gives
  \<^verbatim>\<open>None\<close> for a variable that is not set.
\<close>

record config =
  SENDER_EMAIL :: "string option"
  SENDER_PASSWORD :: "string option"
  RECEIVER_EMAIL :: "string option"

definition SMTP_SERVER :: string where
  "SMTP_SERVER = ''smtp.gmail.com''"

definition SMTP_PORT :: nat where
  "SMTP_PORT = 587"

text \<open>Python's truth value of an optional string: \<^verbatim>\<open>None\<close> and the empty string are
  false.\<close>

definition truthy :: "string option \<Rightarrow> bool" where
  "truthy v = (case v of None \<Rightarrow> False | Some t \<Rightarrow> t \<noteq> [])"

function str_nat :: "nat \<Rightarrow> string" where
  "str_nat n =
     (if n < 10 then [char_of (48 + n)] else str_nat (n div 10) @ [char_of (48 + n mod 10)])"
  by pat_completeness auto
termination
  by (relation "measure id") auto

declare str_nat.simps [simp del]

text \<open>The two marks the script prints, and the siren of the mail subject, as their UTF-8
  bytes.\<close>

definition check_mark :: string where
  "check_mark = [char_of (226::nat), char_of (156::nat), char_of (147::nat)]"

definition cross_mark :: string where
  "cross_mark = [char_of (226::nat), char_of (156::nat), char_of (151::nat)]"

definition siren :: string where
  "siren = [char_of (240::nat), char_of (159::nat), char_of (154::nat), char_of (168::nat)]"

text \<open>
  What the mail library does is the environment's choice. An exception that leaves the
  body of the \<^verbatim>\<open>try\<close> is recorded by the first handler class it is an instance of
  (the classes of \<^verbatim>\<open>smtplib\<close>, of \<^verbatim>\<open>socket\<close> and of \<^verbatim>\<open>email\<close> all derive from
  \<^verbatim>\<open>Exception\<close>) together with its message, and by the statement that raised it.
\<close>

datatype py_exception =
    SMTPAuthenticationError string
  | SMTPException string
  | Exception string

datatype smtp_stage = Compose | Connect | StartTLS | Login | SendMessage | Quit

datatype smtp_outcome = Delivered | Raised smtp_stage py_exception

definition progress_lines :: "smtp_stage \<Rightarrow> string list" where
  "progress_lines st =
     (let l1 = ''Attempting to connect to SMTP server: '' @ SMTP_SERVER @ '' on port ''
                 @ str_nat SMTP_PORT @ ''...'';
          l2 = ''TLS connection started. Logging in...'';
          l3 = ''Login successful. Sending message...'';
          l4 = check_mark @ '' Notification email sent successfully!''
      in case st of
           Compose \<Rightarrow> []
         | Connect \<Rightarrow> [l1]
         | StartTLS \<Rightarrow> [l1]
         | Login \<Rightarrow> [l1, l2]
         | SendMessage \<Rightarrow> [l1, l2, l3]
         | Quit \<Rightarrow> [l1, l2, l3, l4])"

definition exception_text :: "py_exception \<Rightarrow> string" where
  "exception_text e =
     (case e of SMTPAuthenticationError m \<Rightarrow> m | SMTPException m \<Rightarrow> m | Exception m \<Rightarrow> m)"

text \<open>
  \<^verbatim>\<open>send_notification(subject, body)\<close>. The result is the list of printed lines and
  either the returned Boolean or an exception propagated to the caller.
\<close>

definition send_notification ::
    "config \<Rightarrow> smtp_outcome \<Rightarrow> string \<Rightarrow> string \<Rightarrow> string list \<times> (py_exception + bool)" where
  "send_notification cfg smtp subject body =
     (if \<not> truthy (SENDER_PASSWORD cfg) then
        ([''Error: SENDER_PASSWORD not set in .env file''], Inr False)
      else
        (case smtp of
           Delivered \<Rightarrow> (progress_lines Quit, Inr True)
         | Raised st e \<Rightarrow>
             (case e of
                SMTPAuthenticationError m \<Rightarrow>
                  (progress_lines st @
                   [cross_mark @ '' Error: SMTP Authentication Failed.'',
                    ''  - Ensure you're using a Google App Password, not your regular account password'',
                    ''  - Check that SENDER_EMAIL and SENDER_PASSWORD are correct in .env file''],
                   Inr False)
              | SMTPException m \<Rightarrow>
                  (progress_lines st @ [cross_mark @ '' Error sending email: '' @ m], Inr False)
              | Exception m \<Rightarrow>
                  (progress_lines st @ [cross_mark @ '' An unexpected error occurred: '' @ m],
                   Inr False))))"

section \<open>The main program\<close>

text \<open>
  The OpenCV calls whose pixel results are not modelled, as parameters: \<open>'f\<close> is the
  type of a colour frame. \<open>rectangle\<close> and \<open>putText\<close> give the content of the array
  after the drawing; the array they draw on is their first argument.
\<close>

datatype font = FONT_HERSHEY_SIMPLEX

type_synonym colour = "nat \<times> nat \<times> nat"

record 'f cv2 =
  cvtColor :: "'f \<Rightarrow> gray"
  GaussianBlur :: "gray \<Rightarrow> nat \<times> nat \<Rightarrow> nat \<Rightarrow> gray"
  rectangle :: "'f \<Rightarrow> int \<times> int \<Rightarrow> int \<times> int \<Rightarrow> colour \<Rightarrow> nat \<Rightarrow> 'f"
  putText :: "'f \<Rightarrow> string \<Rightarrow> int \<times> int \<Rightarrow> font \<Rightarrow> real \<Rightarrow> colour \<Rightarrow> nat \<Rightarrow> 'f"

text \<open>Lines 89-90 and 115-116: grey-scale conversion, then the 21 x 21 Gaussian blur.\<close>

definition prepare :: "'f cv2 \<Rightarrow> 'f \<Rightarrow> gray" where
  "prepare cv frame = GaussianBlur cv (cvtColor cv frame) (21, 21) 0"

text \<open>
  The world outside the variables of the script. Colour frames are arrays that the
  drawing calls change in place, so they live in a store: \<open>frames w ! a\<close> is the content
  of the array at address \<open>a\<close>, and \<^verbatim>\<open>cap.read()\<close> allocates a new array. The
  single-channel arrays are never written after their creation and are kept as values.
  \<open>notifications\<close> is the record of the calls of \<^verbatim>\<open>send_notification\<close>: subject, body
  and the Boolean returned.
\<close>

datatype 'f shown = Colour 'f | Mask gray

record 'f world =
  cap_opened :: bool
  releases :: nat
  frames :: "'f list"
  windows :: "(string \<times> 'f shown) list"
  stdout :: "string list"
  notifications :: "(string \<times> string \<times> bool) list"
  files :: "(string \<times> 'f) list"

text \<open>The variables of the script that are read across iterations or after the loop.
  \<^verbatim>\<open>motion_detected\<close> and \<^verbatim>\<open>motion_count\<close> are not bound before the first pass.\<close>

record vars =
  gray1 :: gray
  last_notification_time :: real
  frame_count :: nat
  motion_detected :: "bool option"
  motion_count :: "nat option"

text \<open>
  What the environment supplies during one iteration, in the order the script asks for
  it: the frame read, the clock and calendar readings, the fate of the mail if one is
  sent, and the key returned by \<^verbatim>\<open>cv2.waitKey(1)\<close>.
\<close>

record 'f iter_in =
  frame2 :: 'f
  timestamp :: string
  time_gate :: real
  body_time :: string
  smtp :: smtp_outcome
  time_sent :: real
  key :: int
  snapshot_time :: string

text \<open>Lines 142-146: the bounding box of a contour, drawn in green on the array at
  address \<open>a\<close>.\<close>

definition draw_box :: "'f cv2 \<Rightarrow> nat \<Rightarrow> contour \<Rightarrow> 'f list \<Rightarrow> 'f list" where
  "draw_box cv a c fs =
     (case boundingRect c of (x, y, w, h) \<Rightarrow>
        fs[a := rectangle cv (fs ! a) (x, y) (x + w, y + h) (0, 255, 0) 2])"

text \<open>Lines 130-146: the loop over the contours. \<open>a\<close> is the address of \<^verbatim>\<open>frame2\<close>.\<close>

fun contour_loop :: "'f cv2 \<Rightarrow> nat \<Rightarrow> contour list \<Rightarrow> bool \<times> nat \<times> 'f list
    \<Rightarrow> bool \<times> nat \<times> 'f list" where
  "contour_loop cv a [] st = st"
| "contour_loop cv a (c # cs) (detected, n, fs) =
     (if contourArea c < MIN_CONTOUR_AREA then contour_loop cv a cs (detected, n, fs)
      else contour_loop cv a cs (True, n + 1, draw_box cv a c fs))"

text \<open>Lines 119-128: difference, threshold, dilation, contours. \<open>None\<close> stands for a
  contour extraction that does not return.\<close>

definition detect :: "gray \<Rightarrow> gray \<Rightarrow> (cv_error + gray \<times> contour list) option" where
  "detect g1 g2 =
     (case absdiff g1 g2 of
        Inl e \<Rightarrow> Some (Inl e)
      | Inr diff \<Rightarrow>
          (let thresh = snd (threshold diff MOTION_THRESHOLD 255 THRESH_BINARY);
               thresh = dilate thresh None 2
           in case findContours thresh of
                None \<Rightarrow> None
              | Some contours \<Rightarrow> Some (Inr (thresh, contours))))"

definition status_text :: "nat \<Rightarrow> string" where
  "status_text n = ''MOTION DETECTED ('' @ str_nat n @ '' objects)''"

definition mail_subject :: string where
  "mail_subject = siren @ '' Motion Detected!''"

definition mail_body :: "string \<Rightarrow> nat \<Rightarrow> string" where
  "mail_body t n =
     ''Motion was detected by the camera at '' @ t @ ''.'' @ [char_of (10::nat), char_of (10::nat)]
       @ ''Number of objects detected: '' @ str_nat n"

text \<open>Lines 157-166: the cooldown gate and the call of the notifier. An exception of the
  notifier would leave the loop; \<open>Inl\<close> carries it.\<close>

definition notify_step :: "config \<Rightarrow> 'f iter_in \<Rightarrow> bool \<Rightarrow> nat \<Rightarrow> vars \<Rightarrow> 'f world
    \<Rightarrow> py_exception + vars \<times> 'f world" where
  "notify_step cfg i detected n v w =
     (if detected \<and> time_gate i - last_notification_time v > NOTIFICATION_DELAY then
        (let subject = mail_subject;
             body = mail_body (body_time i) n
         in case send_notification cfg (smtp i) subject body of
              (lines, Inl e) \<Rightarrow> Inl e
            | (lines, Inr True) \<Rightarrow>
                Inr (v\<lparr>last_notification_time := time_sent i\<rparr>,
                     w\<lparr>stdout := stdout w @ lines @
                          [''['' @ timestamp i @ ''] Alert sent! Motion with ''
                             @ str_nat n @ '' object(s) detected.''],
                       notifications := notifications w @ [(subject, body, True)]\<rparr>)
            | (lines, Inr False) \<Rightarrow>
                Inr (v, w\<lparr>stdout := stdout w @ lines,
                          notifications := notifications w @ [(subject, body, False)]\<rparr>))
      else Inr (v, w))"

definition imshow :: "string \<Rightarrow> 'f shown \<Rightarrow> 'f world \<Rightarrow> 'f world" where
  "imshow name content w =
     w\<lparr>windows := (name, content) # filter (\<lambda>(n, c). n \<noteq> name) (windows w)\<rparr>"

datatype fault = CvError cv_error | PyException py_exception

datatype 'f outcome =
    Continue vars "'f world"
  | Break vars "'f world"
  | Raises fault vars "'f world"

text \<open>Lines 130-188: the rest of the pass once the contours are there. \<open>a\<close> is the
  address of \<^verbatim>\<open>frame2\<close>.\<close>

definition after_detection :: "'f cv2 \<Rightarrow> config \<Rightarrow> 'f iter_in \<Rightarrow> nat \<Rightarrow> gray \<Rightarrow> gray
    \<Rightarrow> contour list \<Rightarrow> vars \<Rightarrow> 'f world \<Rightarrow> 'f outcome" where
  "after_detection cv cfg i a gray2 thresh contours v w =
     (case contour_loop cv a contours (False, 0, frames w) of
        (detected, n, fs) \<Rightarrow>
          (let v = v\<lparr>motion_detected := Some detected, motion_count := Some n\<rparr>;
               fs = fs[a := putText cv (fs ! a) (timestamp i) (10, 30)
                              FONT_HERSHEY_SIMPLEX 0.7 (255, 255, 255) 2];
               fs = (if detected
                     then fs[a := putText cv (fs ! a) (status_text n) (10, 70)
                                    FONT_HERSHEY_SIMPLEX 0.7 (0, 0, 255) 2]
                     else fs);
               w = w\<lparr>frames := fs\<rparr>
           in case notify_step cfg i detected n v w of
                Inl e \<Rightarrow> Raises (PyException e) v w
              | Inr (v, w) \<Rightarrow>
                  (let w = imshow ''Security Feed'' (Colour (frames w ! a)) w;
                       w = imshow ''Motion Detection'' (Mask thresh) w;
                       v = (if \<not> detected then v\<lparr>gray1 := gray2\<rparr> else v);
                       k = key i mod 256
                   in if k = 113 then
                        Break v (w\<lparr>stdout := stdout w @
                          [[char_of (10::nat)] @ replicate 60 (CHR ''=''),
                           ''Exiting motion detection...'',
                           replicate 60 (CHR ''='')]\<rparr>)
                      else if k = 115 then
                        (let snapshot_filename = ''snapshot_'' @ snapshot_time i @ ''.jpg''
                         in Continue v
                              (w\<lparr>files := files w @ [(snapshot_filename, frames w ! a)],
                                 stdout := stdout w @
                                   [check_mark @ '' Snapshot saved: '' @ snapshot_filename]\<rparr>))
                      else Continue v w)))"

text \<open>Lines 107-188: one pass through the body of \<^verbatim>\<open>while True\<close>, the frame having
  been read into a new array.\<close>

definition iteration :: "'f cv2 \<Rightarrow> config \<Rightarrow> 'f iter_in \<Rightarrow> vars \<Rightarrow> 'f world
    \<Rightarrow> 'f outcome option" where
  "iteration cv cfg i v w =
     (let a = length (frames w);
          w = w\<lparr>frames := frames w @ [frame2 i]\<rparr>;
          v = v\<lparr>frame_count := frame_count v + 1\<rparr>;
          gray2 = prepare cv (frames w ! a)
      in case detect (gray1 v) gray2 of
           None \<Rightarrow> None
         | Some (Inl e) \<Rightarrow> Some (Raises (CvError e) v w)
         | Some (Inr (thresh, contours)) \<Rightarrow>
             Some (after_detection cv cfg i a gray2 thresh contours v w))"

text \<open>Lines 105-188: the loop. The camera delivers the frames of the script and then
  reports the end of the stream.\<close>

fun main_loop :: "'f cv2 \<Rightarrow> config \<Rightarrow> 'f iter_in list \<Rightarrow> vars \<Rightarrow> 'f world
    \<Rightarrow> (fault option \<times> vars \<times> 'f world) option" where
  "main_loop cv cfg [] v w = Some (None, v, w\<lparr>stdout := stdout w @ [''End of video stream.'']\<rparr>)"
| "main_loop cv cfg (i # rest) v w =
     (case iteration cv cfg i v w of
        None \<Rightarrow> None
      | Some (Continue v' w') \<Rightarrow> main_loop cv cfg rest v' w'
      | Some (Break v' w') \<Rightarrow> Some (None, v', w')
      | Some (Raises e v' w') \<Rightarrow> Some (Some e, v', w'))"

text \<open>Lines 190-198: the \<^verbatim>\<open>finally\<close> block.\<close>

definition finally_block :: "'f world \<Rightarrow> 'f world" where
  "finally_block w =
     (let w = (if cap_opened w
               then w\<lparr>cap_opened := False, releases := releases w + 1,
                      stdout := stdout w @ [check_mark @ '' Camera released'']\<rparr>
               else w);
          w = w\<lparr>windows := []\<rparr>
      in w\<lparr>stdout := stdout w @ [check_mark @ '' All windows closed'', ''Motion detection stopped.'']\<rparr>)"

text \<open>How a run ends: the script falls off its end, \<^verbatim>\<open>exit()\<close> raises
  \<^verbatim>\<open>SystemExit\<close>, or an exception leaves the \<^verbatim>\<open>try\<close> block unhandled.\<close>

datatype exit_status = Normal | SystemExit | Unhandled fault

record 'f env =
  camera_opens :: bool
  first_read :: "'f option"
  script :: "'f iter_in list"

definition banner :: "string list" where
  "banner =
     [replicate 60 (CHR ''=''), check_mark @ '' Motion detection started'',
      replicate 60 (CHR ''=''), ''Controls:'', ''  - Press 'q' to quit'',
      ''  - Press 's' to save a snapshot'', replicate 60 (CHR ''='')]"

text \<open>Lines 89-93 and 104: the variables before the first pass.\<close>

definition initial_vars :: "'f cv2 \<Rightarrow> 'f \<Rightarrow> vars" where
  "initial_vars cv frame1 =
     \<lparr>gray1 = prepare cv frame1, last_notification_time = 0, frame_count = 0,
      motion_detected = None, motion_count = None\<rparr>"

definition initial_world :: "'f world" where
  "initial_world =
     \<lparr>cap_opened = False, releases = 0, frames = [], windows = [], stdout = [],
      notifications = [], files = []\<rparr>"

text \<open>Lines 70-198: the whole program.\<close>

definition main :: "'f cv2 \<Rightarrow> config \<Rightarrow> 'f env \<Rightarrow> (exit_status \<times> 'f world) option" where
  "main cv cfg e =
     (let w = initial_world\<lparr>cap_opened := camera_opens e\<rparr> in
      if \<not> cap_opened w then
        Some (SystemExit,
              finally_block (w\<lparr>stdout := stdout w @
                 [cross_mark @ '' Error: Could not open video stream. Check camera permissions.'']\<rparr>))
      else
        (let w = w\<lparr>stdout := stdout w @ [check_mark @ '' Camera opened successfully'']\<rparr> in
         case first_read e of
           None \<Rightarrow>
             Some (SystemExit,
                   finally_block (w\<lparr>stdout := stdout w @ [cross_mark @ '' Error: Could not read from camera''],
                              cap_opened := False, releases := releases w + 1\<rparr>))
         | Some frame1 \<Rightarrow>
             (let w = w\<lparr>frames := frames w @ [frame1]\<rparr>;
                  v = initial_vars cv (frames w ! 0);
                  w = w\<lparr>stdout := stdout w @ banner\<rparr>
              in case main_loop cv cfg (script e) v w of
                   None \<Rightarrow> None
                 | Some (None, v, w) \<Rightarrow> Some (Normal, finally_block w)
                 | Some (Some f, v, w) \<Rightarrow> Some (Unhandled f, finally_block w))))"

section \<open>Notions used in the statements\<close>





text \<open>The all-zero image of the size of a given one.\<close>

definition zeros_like :: "gray \<Rightarrow> gray" where
  "zeros_like g = map (\<lambda>r. replicate (length r) 0) g"

text \<open>
  For the proof that border following comes back to its start: the set of non-zero
  pixels of a buffer, the move of the loop of \<open>follow\<close> as a function of the pixel and the
  direction the search starts from, and the states it runs through (a non-zero pixel and
  a direction that points to a non-zero pixel).
\<close>

definition nz :: "labels \<Rightarrow> point set" where
  "nz im = {p. im p \<noteq> 0}"

definition ccw_step :: "point set \<Rightarrow> point \<times> nat \<Rightarrow> point \<times> nat" where
  "ccw_step B ps =
     (case ps of (p, s) \<Rightarrow>
        (let k = (case filter (\<lambda>k. step_pt p k \<in> B) [Suc s..<16] of [] \<Rightarrow> 15 | k # _ \<Rightarrow> k) mod 8
         in (step_pt p k, (k + 4) mod 8)))"

definition valid_state :: "point set \<Rightarrow> point \<times> nat \<Rightarrow> bool" where
  "valid_state B ps = (case ps of (p, s) \<Rightarrow> s < 8 \<and> p \<in> B \<and> step_pt p s \<in> B)"

section \<open>Concrete inputs\<close>







section \<open>The contour filter\<close>

lemma contour_loop_acc:
  "contour_loop cv a cs (d, n, fs) =
     (d \<or> filter (\<lambda>c. \<not> contourArea c < 500) cs \<noteq> [],
      n + length (filter (\<lambda>c. \<not> contourArea c < 500) cs),
      fold (draw_box cv a) (filter (\<lambda>c. \<not> contourArea c < 500) cs) fs)"
  by (induction cs arbitrary: d n fs) (simp_all add: MIN_CONTOUR_AREA_def)

text \<open>
  C1. Whatever list of contours the extraction hands over, the loop of lines 130-146
  keeps exactly the contours whose area is not strictly below 500: the flag
  \<^verbatim>\<open>motion_detected\<close> it ends with tells whether one was kept, \<^verbatim>\<open>motion_count\<close> is
  their number, and the boxes drawn on the frame are theirs, in order.
\<close>

theorem contour_loop_keeps_large:
  "contour_loop cv a contours (False, 0, fs) =
     (filter (\<lambda>c. \<not> contourArea c < 500) contours \<noteq> [],
      length (filter (\<lambda>c. \<not> contourArea c < 500) contours),
      fold (draw_box cv a) (filter (\<lambda>c. \<not> contourArea c < 500) contours) fs)"
  by (simp add: contour_loop_acc)

section \<open>Contour extraction returns\<close>

lemma filter_upt_first:
  "filter P [a..<b] = k # rest \<Longrightarrow> a \<le> k \<and> k < b \<and> P k \<and> (\<forall>j. a \<le> j \<and> j < k \<longrightarrow> \<not> P j)"
proof (induction "b - a" arbitrary: a)
  case 0
  then show ?case by simp
next
  case (Suc n)
  then have ab: "a < b" by simp
  then have u: "[a..<b] = a # [Suc a..<b]" by (simp add: upt_conv_Cons)
  show ?case
  proof (cases "P a")
    case True
    with Suc.prems u ab show ?thesis by auto
  next
    case False
    with Suc.prems u have f: "filter P [Suc a..<b] = k # rest" by simp
    from Suc.hyps(2) have "n = b - Suc a" by simp
    from Suc.hyps(1) [OF this f] False show ?thesis
      by (metis Suc_leD le_antisym not_less_eq_eq)
  qed
qed

lemma filter_upt_nonempty: "a \<le> j \<Longrightarrow> j < b \<Longrightarrow> P j \<Longrightarrow> filter P [a..<b] \<noteq> []"
  by (simp add: filter_empty_conv) force

lemma step_pt_mod: "step_pt p (k mod 8) = step_pt p k"
  by (simp add: step_pt_def icvCodeDeltas_def)

lemma mod8_cases:
  "(s::nat) mod 8 = 0 \<or> s mod 8 = 1 \<or> s mod 8 = 2 \<or> s mod 8 = 3 \<or> s mod 8 = 4 \<or> s mod 8 = 5
   \<or> s mod 8 = 6 \<or> s mod 8 = 7"
  by presburger

lemma step_back: "step_pt (step_pt p s) ((s mod 8 + 4) mod 8) = p"
  using mod8_cases [of s]
  by (auto simp: step_pt_def icvCodeDeltas_def)

lemma step_pt_inj: "s < 8 \<Longrightarrow> t < 8 \<Longrightarrow> step_pt p s = step_pt p t \<Longrightarrow> s = t"
proof -
  assume a: "s < 8" "t < 8" "step_pt p s = step_pt p t"
  have "step_pt (step_pt p s) ((s mod 8 + 4) mod 8) = p" by (rule step_back)
  have s: "s = 0 \<or> s = 1 \<or> s = 2 \<or> s = 3 \<or> s = 4 \<or> s = 5 \<or> s = 6 \<or> s = 7" using a(1) by arith
  have t: "t = 0 \<or> t = 1 \<or> t = 2 \<or> t = 3 \<or> t = 4 \<or> t = 5 \<or> t = 6 \<or> t = 7" using a(2) by arith
  from s t a(3) show ?thesis
    by (auto simp: step_pt_def icvCodeDeltas_def)
qed

lemma search_valid:
  assumes "valid_state B (p, s)"
  shows "\<exists>k r. filter (\<lambda>k. step_pt p k \<in> B) [Suc s..<16] = k # r \<and> s < k \<and> k \<le> s + 8
    \<and> step_pt p k \<in> B \<and> (\<forall>j. s < j \<and> j < k \<longrightarrow> step_pt p j \<notin> B)"
proof -
  from assms have s: "s < 8" "step_pt p s \<in> B" by (auto simp: valid_state_def)
  have "step_pt p (s + 8) = step_pt p s" by (simp add: step_pt_def icvCodeDeltas_def)
  then have in8: "step_pt p (s + 8) \<in> B" using s(2) by simp
  then have ne: "filter (\<lambda>k. step_pt p k \<in> B) [Suc s..<16] \<noteq> []"
    using s(1) by (intro filter_upt_nonempty [of _ "s + 8"]) auto
  then obtain k r where f: "filter (\<lambda>k. step_pt p k \<in> B) [Suc s..<16] = k # r"
    by (cases "filter (\<lambda>k. step_pt p k \<in> B) [Suc s..<16]") auto
  from filter_upt_first [OF f] have k: "Suc s \<le> k" "k < 16" "step_pt p k \<in> B"
    "\<forall>j. Suc s \<le> j \<and> j < k \<longrightarrow> step_pt p j \<notin> B" by auto
  have "k \<le> s + 8"
  proof (rule ccontr)
    assume "\<not> k \<le> s + 8"
    with k(4) have "step_pt p (s + 8) \<notin> B" by auto
    with in8 show False by simp
  qed
  with f k show ?thesis by auto
qed

lemma ccw_step_valid: "valid_state B x \<Longrightarrow> valid_state B (ccw_step B x)"
proof -
  assume v: "valid_state B x"
  obtain p s where x: "x = (p, s)" by (cases x)
  from v x obtain k r where k: "filter (\<lambda>k. step_pt p k \<in> B) [Suc s..<16] = k # r"
      "step_pt p k \<in> B"
    using search_valid [of B p s] by blast
  have "ccw_step B x = (step_pt p (k mod 8), (k mod 8 + 4) mod 8)"
    by (simp add: ccw_step_def x k(1) Let_def)
  moreover have "step_pt (step_pt p (k mod 8)) ((k mod 8 + 4) mod 8) = p"
    using step_back [of p "k mod 8"] by simp
  ultimately show ?thesis
    using k(2) v x by (simp add: valid_state_def step_pt_mod)
qed

lemma no_two_starts:
  assumes "a < b" "b < 8" "step_pt p a \<in> B" "step_pt p b \<in> B"
    "a < m" "m \<le> a + 8" "\<forall>j. a < j \<and> j < m \<longrightarrow> step_pt p j \<notin> B"
    "b < n" "n \<le> b + 8" "\<forall>j. b < j \<and> j < n \<longrightarrow> step_pt p j \<notin> B"
    "m mod 8 = n mod 8"
  shows False
proof -
  have mb: "m \<le> b"
  proof (rule ccontr)
    assume "\<not> m \<le> b"
    then have "a < b \<and> b < m" using assms(1) by simp
    with assms(7) have "step_pt p b \<notin> B" by blast
    with assms(4) show False by simp
  qed
  have mn: "m < n" using mb assms(8) by simp
  then have "8 dvd n - m"
    using assms(11) mod_eq_dvd_iff_nat [of m n 8] by simp
  then obtain c where c: "n - m = 8 * c" by (auto simp: dvd_def)
  have "0 < c \<and> c < 2" using c mn assms(2,5,9) mb by arith
  then have "c = 1" by simp
  with c mn have "n = m + 8" by simp
  then have "b < a + 8 \<and> a + 8 < n" using assms(1,2,5) by arith
  with assms(10) have "step_pt p (a + 8) \<notin> B" by blast
  moreover have "step_pt p (a + 8) = step_pt p a" by (simp add: step_pt_def icvCodeDeltas_def)
  ultimately show False using assms(3) by simp
qed

lemma ccw_step_inj:
  assumes "valid_state B x" "valid_state B y" "ccw_step B x = ccw_step B y"
  shows "x = y"
proof -
  obtain p s where x: "x = (p, s)" by (cases x)
  obtain q t where y: "y = (q, t)" by (cases y)
  from assms(1) x obtain k r where k: "filter (\<lambda>k. step_pt p k \<in> B) [Suc s..<16] = k # r"
      "s < k" "k \<le> s + 8" "\<forall>j. s < j \<and> j < k \<longrightarrow> step_pt p j \<notin> B"
    using search_valid [of B p s] by blast
  from assms(2) y obtain l r' where l: "filter (\<lambda>k. step_pt q k \<in> B) [Suc t..<16] = l # r'"
      "t < l" "l \<le> t + 8" "\<forall>j. t < j \<and> j < l \<longrightarrow> step_pt q j \<notin> B"
    using search_valid [of B q t] by blast
  have cx: "ccw_step B x = (step_pt p (k mod 8), (k mod 8 + 4) mod 8)"
    by (simp add: ccw_step_def x k(1) Let_def)
  have cy: "ccw_step B y = (step_pt q (l mod 8), (l mod 8 + 4) mod 8)"
    by (simp add: ccw_step_def y l(1) Let_def)
  from assms(3) cx cy have e1: "step_pt p (k mod 8) = step_pt q (l mod 8)"
    and e2: "(k mod 8 + 4) mod 8 = (l mod 8 + 4) mod 8" by simp_all
  have twice4: "((z mod 8 + 4) mod 8 + 4) mod 8 = z mod 8" for z :: nat
    by (simp add: mod_simps)
  from e2 have "((k mod 8 + 4) mod 8 + 4) mod 8 = ((l mod 8 + 4) mod 8 + 4) mod 8"
    by simp
  then have kl: "k mod 8 = l mod 8" by (simp only: twice4)
  have "p = step_pt (step_pt p (k mod 8)) ((k mod 8 + 4) mod 8)"
    using step_back [of p "k mod 8"] by simp
  also have "\<dots> = step_pt (step_pt q (l mod 8)) ((l mod 8 + 4) mod 8)"
    using e1 kl by simp
  also have "\<dots> = q" using step_back [of q "l mod 8"] by simp
  finally have pq: "p = q" .
  from assms(1) x have s: "s < 8" "step_pt p s \<in> B"
    by (simp_all add: valid_state_def)
  from assms(2) y pq have t: "t < 8" "step_pt p t \<in> B"
    by (simp_all add: valid_state_def)
  have "s = t"
  proof (rule ccontr)
    assume "s \<noteq> t"
    then consider "s < t" | "t < s" by arith
    then show False
    proof cases
      case 1
      show False
        by (rule no_two_starts [OF 1 t(1) s(2) t(2) k(2) k(3) k(4) l(2) l(3) l(4) [folded pq] kl])
    next
      case 2
      show False
        by (rule no_two_starts [OF 2 s(1) t(2) s(2) l(2) l(3) l(4) [folded pq] k(2) k(3) k(4) kl [symmetric]])
    qed
  qed
  with pq x y show ?thesis by simp
qed

lemma inj_orbit_returns:
  assumes fin: "finite V" and maps: "\<And>x. x \<in> V \<Longrightarrow> f x \<in> V" and inj: "inj_on f V"
    and x: "x \<in> V"
  shows "\<exists>n. 0 < n \<and> n \<le> card V \<and> (f ^^ n) x = x"
proof -
  have inV: "(f ^^ i) x \<in> V" for i
    by (induction i) (simp_all add: x maps)
  have peel: "(f ^^ i) x = (f ^^ (i + m)) x \<Longrightarrow> x = (f ^^ m) x" for i m
  proof (induction i)
    case 0
    then show ?case by simp
  next
    case (Suc i)
    then have "f ((f ^^ i) x) = f ((f ^^ (i + m)) x)" by simp
    then have "(f ^^ i) x = (f ^^ (i + m)) x"
      using inj inV by (auto dest: inj_onD)
    then show ?case by (rule Suc.IH)
  qed
  have "\<not> inj_on (\<lambda>i. (f ^^ i) x) {0..card V}"
  proof
    assume "inj_on (\<lambda>i. (f ^^ i) x) {0..card V}"
    then have "card ((\<lambda>i. (f ^^ i) x) ` {0..card V}) = card {0..card V}"
      by (rule card_image)
    moreover have "(\<lambda>i. (f ^^ i) x) ` {0..card V} \<subseteq> V" using inV by auto
    then have "card ((\<lambda>i. (f ^^ i) x) ` {0..card V}) \<le> card V"
      using fin by (simp add: card_mono)
    ultimately show False by simp
  qed
  then obtain i j where ij: "i \<le> card V" "j \<le> card V" "i < j" "(f ^^ i) x = (f ^^ j) x"
    unfolding inj_on_def
    by (metis atLeastAtMost_iff linorder_neqE_nat zero_le)
  from ij(3,4) have "(f ^^ i) x = (f ^^ (i + (j - i))) x" by simp
  then have "x = (f ^^ (j - i)) x" by (rule peel)
  with ij show ?thesis by (intro exI [of _ "j - i"]) auto
qed

lemma ccw_step_next:
  "ccw_step (nz im) (i3, s) =
     (step_pt i3 (next_ccw im i3 s mod 8), (next_ccw im i3 s mod 8 + 4) mod 8)"
  by (simp add: ccw_step_def next_ccw_def nz_def Let_def)

lemma nz_upd: "im p \<noteq> 0 \<Longrightarrow> v \<noteq> 0 \<Longrightarrow> nz (im(p := v)) = nz im"
  by (auto simp: nz_def)

lemma follow_returns:
  assumes "valid_state (nz im) (i3, s)" "(ccw_step (nz im) ^^ n) (i3, s) = (i0, s0)"
    "0 < n" "n \<le> fuel" "step_pt i0 s0 = i1"
  shows "\<exists>im' c. follow fuel im i0 i1 i3 s prev_s acc = Some (im', c) \<and> nz im' = nz im"
  using assms
proof (induction n arbitrary: fuel im i3 s prev_s acc)
  case 0
  then show ?case by simp
next
  case (Suc n)
  from Suc.prems(4) obtain fuel' where fuel: "fuel = Suc fuel'" by (cases fuel) auto
  define s' where "s' = next_ccw im i3 s mod 8"
  define i4 where "i4 = step_pt i3 s'"
  define im' where "im' = (if s' \<noteq> 0 \<and> s' - 1 < s then im(i3 := -126)
      else if im i3 = 1 then im(i3 := 2) else im)"
  define acc' where "acc' = (if s' \<noteq> prev_s then acc @ [unpad i3] else acc)"
  from Suc.prems(1) have i3nz: "im i3 \<noteq> 0" by (simp add: valid_state_def nz_def)
  have nz': "nz im' = nz im" by (simp add: im'_def nz_upd i3nz)
  have st: "ccw_step (nz im) (i3, s) = (i4, (s' + 4) mod 8)"
    by (simp add: ccw_step_next s'_def i4_def)
  have unf: "follow fuel im i0 i1 i3 s prev_s acc =
      (if i4 = i0 \<and> i3 = i1 then Some (im', acc')
       else follow fuel' im' i0 i1 i4 ((s' + 4) mod 8) s' acc')"
    unfolding fuel s'_def i4_def im'_def acc'_def
    by (simp only: follow.simps Let_def)
  show ?case
  proof (cases "i4 = i0 \<and> i3 = i1")
    case True
    show ?thesis unfolding unf using True nz' by simp
  next
    case False
    have rest: "(ccw_step (nz im) ^^ n) (i4, (s' + 4) mod 8) = (i0, s0)"
      using Suc.prems(2) st by (simp add: funpow_swap1)
    have "n \<noteq> 0"
    proof
      assume "n = 0"
      with rest have e: "i4 = i0" "(s' + 4) mod 8 = s0" by simp_all
      have "s' mod 8 = s'" by (simp add: s'_def)
      then have "step_pt i4 ((s' + 4) mod 8) = i3"
        using step_back [of i3 s'] by (simp add: i4_def)
      with e Suc.prems(5) have "i3 = i1" by simp
      with e False show False by simp
    qed
    moreover have "valid_state (nz im') (i4, (s' + 4) mod 8)"
      using ccw_step_valid [OF Suc.prems(1)] st nz' by simp
    moreover have "(ccw_step (nz im') ^^ n) (i4, (s' + 4) mod 8) = (i0, s0)"
      using rest nz' by simp
    moreover have "n \<le> fuel'" using Suc.prems(4) fuel by simp
    ultimately have "\<exists>im'' c. follow fuel' im' i0 i1 i4 ((s' + 4) mod 8) s' acc' = Some (im'', c)
        \<and> nz im'' = nz im'"
      using Suc.IH [of im' i4 "(s' + 4) mod 8" fuel' s' acc'] Suc.prems(5) by simp
    then show ?thesis unfolding unf using False nz' by simp
  qed
qed

lemma valid_states_finite:
  assumes "finite B"
  shows "finite {x. valid_state B x}" "card {x. valid_state B x} \<le> 8 * card B"
proof -
  have sub: "{x. valid_state B x} \<subseteq> B \<times> {..<8}"
    by (auto simp: valid_state_def)
  have fin: "finite (B \<times> {..<8::nat})" using assms by simp
  show "finite {x. valid_state B x}" using sub fin by (rule finite_subset)
  have "card {x. valid_state B x} \<le> card (B \<times> {..<8::nat})"
    using fin sub by (simp add: card_mono)
  then show "card {x. valid_state B x} \<le> 8 * card B" by (simp add: card_cartesian_product)
qed

lemma fetch_returns:
  assumes "im i0 \<noteq> 0" "finite (nz im)" "8 * card (nz im) \<le> fuel"
  shows "\<exists>im' c. icvFetchContour fuel im i0 = Some (im', c) \<and> nz im' = nz im"
proof (cases "first_cw im i0 = 4")
  case True
  then show ?thesis by (simp add: icvFetchContour_def nz_upd assms(1))
next
  case False
  define s0 where "s0 = first_cw im i0"
  from False obtain r where f: "filter (\<lambda>s. im (step_pt i0 s) \<noteq> 0) [3, 2, 1, 0, 7, 6, 5] = s0 # r"
    unfolding first_cw_def s0_def by (auto split: list.splits)
  from Cons_eq_filterD [OF f [symmetric]] obtain us vs
    where d: "[3, 2, 1, 0, 7, 6, 5] = us @ s0 # vs" "im (step_pt i0 s0) \<noteq> 0" by blast
  from d(1) have "s0 \<in> set [3, 2, 1, 0, 7, 6, 5]"
    by (metis in_set_conv_decomp)
  then have s0: "s0 < 8" "im (step_pt i0 s0) \<noteq> 0" using d(2) by auto
  let ?B = "nz im"
  let ?V = "{x. valid_state ?B x}"
  have v0: "(i0, s0) \<in> ?V" using s0 assms(1) by (simp add: valid_state_def nz_def)
  have "\<exists>n. 0 < n \<and> n \<le> card ?V \<and> (ccw_step ?B ^^ n) (i0, s0) = (i0, s0)"
  proof (rule inj_orbit_returns)
    show "finite ?V" using assms(2) by (rule valid_states_finite)
    show "\<And>x. x \<in> ?V \<Longrightarrow> ccw_step ?B x \<in> ?V" by (simp add: ccw_step_valid)
    show "inj_on (ccw_step ?B) ?V" by (rule inj_onI) (simp add: ccw_step_inj)
    show "(i0, s0) \<in> ?V" by (rule v0)
  qed
  then obtain n where n: "0 < n" "n \<le> card ?V" "(ccw_step ?B ^^ n) (i0, s0) = (i0, s0)"
    by blast
  have "n \<le> fuel"
    using n(2) valid_states_finite(2) [OF assms(2)] assms(3) by linarith
  from follow_returns [OF _ n(3) n(1) this refl, of "(s0 + 4) mod 8" "[]"] v0
  have "\<exists>im' c. follow fuel im i0 (step_pt i0 s0) i0 s0 ((s0 + 4) mod 8) [] = Some (im', c)
      \<and> nz im' = nz im" by simp
  with False show ?thesis by (simp add: icvFetchContour_def s0_def Let_def)
qed

lemma scan_pixel_returns:
  assumes "finite (nz (img st))" "8 * card (nz (img st)) \<le> fuel"
  shows "\<exists>st'. scan_pixel fuel y x st = Some st' \<and> nz (img st') = nz (img st)"
proof (cases "img st (x, y) \<noteq> prev st \<and> prev st = 0 \<and> img st (x, y) = 1
    \<and> \<not> img st (lnbd_x st, y) > 0")
  case True
  then have "img st (x, y) \<noteq> 0" by simp
  from fetch_returns [OF this assms] obtain im' c
    where "icvFetchContour fuel (img st) (x, y) = Some (im', c)" "nz im' = nz (img st)"
    by blast
  with True show ?thesis by (simp add: scan_pixel_def Let_def)
next
  case False
  then show ?thesis by (auto simp: scan_pixel_def Let_def)
qed

lemma scan_row_returns:
  "finite (nz (img st)) \<Longrightarrow> 8 * card (nz (img st)) \<le> fuel
   \<Longrightarrow> \<exists>st'. scan_row fuel y xs st = Some st' \<and> nz (img st') = nz (img st)"
proof (induction xs arbitrary: st)
  case Nil
  then show ?case by simp
next
  case (Cons x xs)
  from scan_pixel_returns [OF Cons.prems] obtain st1
    where 1: "scan_pixel fuel y x st = Some st1" "nz (img st1) = nz (img st)" by blast
  with Cons.IH [of st1] Cons.prems show ?case by simp
qed

lemma scan_rows_returns:
  "finite (nz im) \<Longrightarrow> 8 * card (nz im) \<le> fuel \<Longrightarrow> \<exists>r. scan_rows fuel ys xs im cs = Some r"
proof (induction ys arbitrary: im cs)
  case Nil
  then show ?case by simp
next
  case (Cons y ys)
  from scan_row_returns [of "\<lparr>img = im, lnbd_x = 0, prev = 0, found = cs\<rparr>" fuel y xs] Cons.prems
  obtain st where 1: "scan_row fuel y xs \<lparr>img = im, lnbd_x = 0, prev = 0, found = cs\<rparr> = Some st"
      "nz (img st) = nz im" by auto
  with Cons.IH [of "img st" "found st"] Cons.prems show ?case by simp
qed

lemma nz_copyMakeBorder:
  "nz (copyMakeBorder src) \<subseteq> {1..int (snd (shape src))} \<times> {1..int (fst (shape src))}"
  by (auto simp: nz_def copyMakeBorder_def split: if_splits)

lemma findContours_returns: "\<exists>contours. findContours src = Some contours"
proof -
  obtain h w where s: "shape src = (h, w)" by (cases "shape src")
  have sub: "nz (copyMakeBorder src) \<subseteq> {1..int w} \<times> {1..int h}"
    using nz_copyMakeBorder [of src] s by simp
  have fin: "finite (nz (copyMakeBorder src))"
    using sub by (rule finite_subset) simp
  have "card (nz (copyMakeBorder src)) \<le> card ({1..int w} \<times> {1..int h})"
    using sub by (intro card_mono) simp_all
  then have "8 * card (nz (copyMakeBorder src)) \<le> 8 * h * w"
    by (simp add: card_cartesian_product mult.commute)
  from scan_rows_returns [OF fin this] show ?thesis
    by (simp add: findContours_def s)
qed

section \<open>Identical images\<close>

lemma px_zeros_like [simp]: "px (zeros_like g) y x = 0"
  by (auto simp: px_def zeros_like_def)

lemma length_zeros_like [simp]: "length (zeros_like g) = length g"
  by (simp add: zeros_like_def)

lemma nth_zeros_like [simp]: "y < length g \<Longrightarrow> zeros_like g ! y = replicate (length (g ! y)) 0"
  by (simp add: zeros_like_def)

lemma shape_zeros_like [simp]: "shape (zeros_like g) = shape g"
  by (cases g) (simp_all add: shape_def zeros_like_def)

lemma absdiff_self: "absdiff g g = Inr (zeros_like g)"
proof -
  have "map (\<lambda>(p, q). absdiff_px p q) (zip r r) = replicate (length r) 0" for r :: "8 word list"
    by (induction r) (simp_all add: absdiff_px_def)
  then have "map (\<lambda>(ra, rb). map (\<lambda>(p, q). absdiff_px p q) (zip ra rb)) (zip g g) = zeros_like g"
    by (induction g) (simp_all add: zeros_like_def)
  then show ?thesis by (simp add: absdiff_def)
qed

lemma threshold_zeros:
  "snd (threshold (zeros_like g) MOTION_THRESHOLD 255 THRESH_BINARY) = zeros_like g"
  by (simp add: threshold_def threshold_px_def zeros_like_def MOTION_THRESHOLD_def comp_def)

lemma dilate3x3_zeros: "dilate3x3 (zeros_like g) = zeros_like g"
proof -
  have f: "fold (\<lambda>(dy, dx) m. max m (px (zeros_like g) (int y + dy) (int x + dx))) os 0 = 0"
    for y x os
    by (induction os) (simp_all add: case_prod_beta)
  show ?thesis
    unfolding dilate3x3_def f
    by (rule nth_equalityI) (simp_all add: map_replicate_const)
qed

lemma dilate_zeros: "dilate (zeros_like g) None n = zeros_like g"
  by (induction n) (simp_all add: dilate_def dilate3x3_zeros)

lemma copyMakeBorder_zeros: "copyMakeBorder (zeros_like g) = (\<lambda>p. 0)"
  by (auto simp: copyMakeBorder_def)

lemma scan_row_blank:
  "img st = (\<lambda>p. 0) \<Longrightarrow> prev st = 0 \<Longrightarrow> scan_row fuel y xs st = Some st"
  by (induction xs) (simp_all add: scan_pixel_def)

lemma scan_rows_blank: "scan_rows fuel ys xs (\<lambda>p. 0) cs = Some cs"
  by (induction ys) (simp_all add: scan_row_blank)

lemma findContours_zeros: "findContours (zeros_like g) = Some []"
  by (simp add: findContours_def copyMakeBorder_zeros scan_rows_blank split: prod.splits)

lemma detect_self: "detect g g = Some (Inr (zeros_like g, []))"
  by (simp add: detect_def absdiff_self threshold_zeros dilate_zeros findContours_zeros)

section \<open>The notifier and the cooldown\<close>











section \<open>The threshold\<close>

text \<open>
  C7. The call of line 122 keeps the size of the difference image and sets each pixel to
  255 when the difference is strictly above 25, and to 0 otherwise.
\<close>

theorem threshold_binary:
  "map length (snd (threshold diff MOTION_THRESHOLD 255 THRESH_BINARY)) = map length diff
   \<and> (y < length diff \<and> x < length (diff ! y)
      \<longrightarrow> snd (threshold diff MOTION_THRESHOLD 255 THRESH_BINARY) ! y ! x
          = (if unat (diff ! y ! x) > 25 then 255 else 0))"
  by (simp add: threshold_def threshold_px_def MOTION_THRESHOLD_def)

theorem threshold_binary_witness:
  "(0::nat) < length [[0, 26], [25, 255 :: 8 word]] \<and> (1::nat) < length ([[0, 26], [25, 255 :: 8 word]] ! 0)
   \<and> snd (threshold [[0, 26], [25, 255]] MOTION_THRESHOLD 255 THRESH_BINARY) ! 0 ! 1 = 255
   \<and> snd (threshold [[0, 26], [25, 255]] MOTION_THRESHOLD 255 THRESH_BINARY) ! 1 ! 0 = 0"
  using threshold_binary [of "[[0, 26], [25, 255]]" 0 1]
    threshold_binary [of "[[0, 26], [25, 255]]" 1 0]
  by simp

end
